theory Spec2Isabelle
  imports Complex_Main "HOL-Library.Multiset" "HOL-Library.Signed_Division"
begin

section \<open>JavaScript values and array primitives\<close>

text \<open>
  The values that travel through \<open>localStorage\<close> and through the three persisted
  fields of the player state. Numbers are idealised as reals (no NaN, no infinities,
  no rounding); arrays and objects are never persisted by the code and are left out.
\<close>

datatype js_value = JUndefined | JNull | JBool bool | JNum real | JStr string

text \<open>JavaScript truthiness, as tested by \<open>if (savedTheme)\<close>.\<close>

fun truthy :: "js_value \<Rightarrow> bool" where
  "truthy JUndefined = False"
| "truthy JNull = False"
| "truthy (JBool b) = b"
| "truthy (JNum r) = (r \<noteq> 0)"
| "truthy (JStr s) = (s \<noteq> [])"

text \<open>
  \<open>xs[i]\<close>: an array read is \<open>undefined\<close> (here \<open>None\<close>) outside
  \<open>0 \<le> i < xs.length\<close>.
\<close>

definition array_get :: "'a list \<Rightarrow> int \<Rightarrow> 'a option" where
  "array_get xs i = (if 0 \<le> i \<and> i < int (length xs) then Some (xs ! nat i) else None)"

text \<open>\<open>xs.indexOf(x)\<close>: the first position holding \<open>x\<close>, or \<open>-1\<close>.\<close>

fun indexOf :: "'a list \<Rightarrow> 'a \<Rightarrow> int" where
  "indexOf [] x = -1"
| "indexOf (y # ys) x =
     (if y = x then 0 else (let r = indexOf ys x in if r < 0 then -1 else r + 1))"

text \<open>
  \<open>xs.filter((v, i) => p(v, i))\<close> and \<open>xs.map((v, i) => f(v, i))\<close>: the callbacks
  receive the element and its position.
\<close>

definition filter_indexed :: "('a \<Rightarrow> int \<Rightarrow> bool) \<Rightarrow> 'a list \<Rightarrow> 'a list" where
  "filter_indexed p xs =
     map fst (filter (\<lambda>(v, i). p v i) (zip xs (map int [0..<length xs])))"

definition map_indexed :: "('a \<Rightarrow> int \<Rightarrow> 'b) \<Rightarrow> 'a list \<Rightarrow> 'b list" where
  "map_indexed f xs = map (\<lambda>(v, i). f v i) (zip xs (map int [0..<length xs]))"

section \<open>Constants (src/utils/constants.js)\<close>

definition DEFAULT_SPEED :: real where "DEFAULT_SPEED = 1"
definition DEFAULT_VOLUME :: real where "DEFAULT_VOLUME = 1"

definition STORAGE_KEY_VOLUME :: string where "STORAGE_KEY_VOLUME = ''las-player-volume''"
definition STORAGE_KEY_THEME :: string where "STORAGE_KEY_THEME = ''las-player-theme''"
definition STORAGE_KEY_PLAYBACK_SPEED :: string where
  "STORAGE_KEY_PLAYBACK_SPEED = ''las-player-speed''"

definition THEME_DARK :: string where "THEME_DARK = ''dark''"
definition THEME_LIGHT :: string where "THEME_LIGHT = ''light''"

definition MEDIA_TYPE_VIDEO :: string where "MEDIA_TYPE_VIDEO = ''video''"

definition REPEAT_OFF :: string where "REPEAT_OFF = ''off''"
definition REPEAT_ALL :: string where "REPEAT_ALL = ''all''"
definition REPEAT_ONE :: string where "REPEAT_ONE = ''one''"

definition EV_PLAYLIST_UPDATE :: string where "EV_PLAYLIST_UPDATE = ''playlist:update''"
definition EV_TRACK_CHANGE :: string where "EV_TRACK_CHANGE = ''playlist:trackchange''"
definition EV_SHUFFLE_TOGGLE :: string where "EV_SHUFFLE_TOGGLE = ''playlist:shuffle''"
definition EV_REPEAT_TOGGLE :: string where "EV_REPEAT_TOGGLE = ''playlist:repeat''"

section \<open>The player state (StateManager.state)\<close>

text \<open>
  One field per key of the object literal in the constructor, in the source's order.
  Tracks are opaque (\<open>'t\<close>). \<open>volume\<close>, \<open>theme\<close> and \<open>playbackRate\<close> hold
  JavaScript values because \<open>loadPersistedState\<close> assigns them whatever
  \<open>localStorage\<close> yields, unchecked. Nullable fields are options (\<open>None\<close> is \<open>null\<close>).
\<close>

record 't player_state =
  isPlaying :: bool
  currentTime :: real
  duration :: real
  playbackRate :: js_value
  isBuffering :: bool
  volume :: js_value
  isMuted :: bool
  mediaType :: string
  currentSrc :: "string option"
  mediaTitle :: string
  mediaArtist :: string
  mediaCover :: "string option"
  playlist :: "'t list"
  currentTrackIndex :: int
  shuffleEnabled :: bool
  repeatMode :: string
  shuffledOrder :: "int list"
  theme :: js_value
  isFullscreen :: bool
  isPiP :: bool
  controlsVisible :: bool
  sidebarOpen :: bool
  subtitlesEnabled :: bool
  subtitleSrc :: "string option"

text \<open>
  The \<open>updates\<close> argument of \<open>set\<close>: a partial object. A key that is absent is
  \<open>None\<close>; a key that is present carries its value.
\<close>

record 't updates =
  u_isPlaying :: "bool option"
  u_currentTime :: "real option"
  u_duration :: "real option"
  u_playbackRate :: "js_value option"
  u_isBuffering :: "bool option"
  u_volume :: "js_value option"
  u_isMuted :: "bool option"
  u_mediaType :: "string option"
  u_currentSrc :: "string option option"
  u_mediaTitle :: "string option"
  u_mediaArtist :: "string option"
  u_mediaCover :: "string option option"
  u_playlist :: "'t list option"
  u_currentTrackIndex :: "int option"
  u_shuffleEnabled :: "bool option"
  u_repeatMode :: "string option"
  u_shuffledOrder :: "int list option"
  u_theme :: "js_value option"
  u_isFullscreen :: "bool option"
  u_isPiP :: "bool option"
  u_controlsVisible :: "bool option"
  u_sidebarOpen :: "bool option"
  u_subtitlesEnabled :: "bool option"
  u_subtitleSrc :: "string option option"

text \<open>The empty object literal \<open>{}\<close>.\<close>

definition no_updates :: "'t updates" where
  "no_updates = \<lparr>
     u_isPlaying = None, u_currentTime = None, u_duration = None, u_playbackRate = None,
     u_isBuffering = None, u_volume = None, u_isMuted = None, u_mediaType = None,
     u_currentSrc = None, u_mediaTitle = None, u_mediaArtist = None, u_mediaCover = None,
     u_playlist = None, u_currentTrackIndex = None, u_shuffleEnabled = None,
     u_repeatMode = None, u_shuffledOrder = None, u_theme = None, u_isFullscreen = None,
     u_isPiP = None, u_controlsVisible = None, u_sidebarOpen = None,
     u_subtitlesEnabled = None, u_subtitleSrc = None \<rparr>"

definition or_old :: "'a option \<Rightarrow> 'a \<Rightarrow> 'a" where
  "or_old u old = (case u of None \<Rightarrow> old | Some v \<Rightarrow> v)"

text \<open>\<open>Object.assign(this.state, updates)\<close>: every present key overwrites its field.\<close>

definition assign :: "'t player_state \<Rightarrow> 't updates \<Rightarrow> 't player_state" where
  "assign s u = \<lparr>
     isPlaying = or_old (u_isPlaying u) (isPlaying s),
     currentTime = or_old (u_currentTime u) (currentTime s),
     duration = or_old (u_duration u) (duration s),
     playbackRate = or_old (u_playbackRate u) (playbackRate s),
     isBuffering = or_old (u_isBuffering u) (isBuffering s),
     volume = or_old (u_volume u) (volume s),
     isMuted = or_old (u_isMuted u) (isMuted s),
     mediaType = or_old (u_mediaType u) (mediaType s),
     currentSrc = or_old (u_currentSrc u) (currentSrc s),
     mediaTitle = or_old (u_mediaTitle u) (mediaTitle s),
     mediaArtist = or_old (u_mediaArtist u) (mediaArtist s),
     mediaCover = or_old (u_mediaCover u) (mediaCover s),
     playlist = or_old (u_playlist u) (playlist s),
     currentTrackIndex = or_old (u_currentTrackIndex u) (currentTrackIndex s),
     shuffleEnabled = or_old (u_shuffleEnabled u) (shuffleEnabled s),
     repeatMode = or_old (u_repeatMode u) (repeatMode s),
     shuffledOrder = or_old (u_shuffledOrder u) (shuffledOrder s),
     theme = or_old (u_theme u) (theme s),
     isFullscreen = or_old (u_isFullscreen u) (isFullscreen s),
     isPiP = or_old (u_isPiP u) (isPiP s),
     controlsVisible = or_old (u_controlsVisible u) (controlsVisible s),
     sidebarOpen = or_old (u_sidebarOpen u) (sidebarOpen s),
     subtitlesEnabled = or_old (u_subtitlesEnabled u) (subtitlesEnabled s),
     subtitleSrc = or_old (u_subtitleSrc u) (subtitleSrc s) \<rparr>"

section \<open>Durable storage (localStorage, storageGet, storageSet)\<close>

text \<open>
  \<open>localStorage\<close> maps string keys to strings. An item's text is represented by the
  JSON value it denotes (\<open>Json v\<close>), or kept as raw text when it is not JSON
  (\<open>NotJson\<close>); so \<open>JSON.parse\<close> of what \<open>JSON.stringify\<close> produced gives the value
  back, as the platform guarantees for finite numbers, strings, booleans and null.
  \<open>JSON.stringify(undefined)\<close> is \<open>undefined\<close>, which \<open>setItem\<close> stores as the
  text \<open>undefined\<close>: not JSON. Storage that refuses writes (quota, privacy mode) is
  outside this model; \<open>setItem\<close> always succeeds here.
\<close>

datatype storage_text = Json js_value | NotJson string

datatype js_error = SyntaxError

type_synonym local_storage = "string \<rightharpoonup> storage_text"

definition stringify_item :: "js_value \<Rightarrow> storage_text" where
  "stringify_item v = (if v = JUndefined then NotJson ''undefined'' else Json v)"

fun JSON_parse :: "storage_text \<Rightarrow> js_error + js_value" where
  "JSON_parse (NotJson t) = Inl SyntaxError"
| "JSON_parse (Json JUndefined) = Inl SyntaxError"
| "JSON_parse (Json v) = Inr v"

text \<open>\<open>storageGet(key, defaultValue = null)\<close>: the \<open>catch\<close> returns the default.\<close>

definition storageGet :: "string \<Rightarrow> js_value \<Rightarrow> local_storage \<Rightarrow> js_value" where
  "storageGet key defaultValue ls =
     (case ls key of
        None \<Rightarrow> defaultValue
      | Some item \<Rightarrow> (case JSON_parse item of Inl e \<Rightarrow> defaultValue | Inr v \<Rightarrow> v))"

definition storageSet :: "string \<Rightarrow> js_value \<Rightarrow> local_storage \<Rightarrow> local_storage" where
  "storageSet key v ls = ls(key \<mapsto> stringify_item v)"

section \<open>Events published by the store\<close>

text \<open>
  The store calls \<open>eventBus.emit(name, data)\<close>. What the subscribed handlers then do
  belongs to the consumers; the model records each call, in order, in \<open>emitted\<close>.
\<close>

datatype 't payload =
    StateChange "'t player_state" "'t player_state" "'t updates"
  | PlaylistPayload "'t list"
  | TrackPayload "'t option" int
  | ShufflePayload bool
  | RepeatPayload string

record 't store =
  state :: "'t player_state"
  localStorage :: local_storage
  emitted :: "(string \<times> 't payload) list"

definition eventBus_emit :: "string \<Rightarrow> 't payload \<Rightarrow> 't store \<Rightarrow> 't store" where
  "eventBus_emit event data w = w\<lparr>emitted := emitted w @ [(event, data)]\<rparr>"

section \<open>StateManager\<close>

definition initial_state :: "'t player_state" where
  "initial_state = \<lparr>
     isPlaying = False, currentTime = 0, duration = 0, playbackRate = JNum DEFAULT_SPEED,
     isBuffering = False, volume = JNum DEFAULT_VOLUME, isMuted = False,
     mediaType = MEDIA_TYPE_VIDEO, currentSrc = None, mediaTitle = [], mediaArtist = [],
     mediaCover = None, playlist = [], currentTrackIndex = -1, shuffleEnabled = False,
     repeatMode = REPEAT_OFF, shuffledOrder = [], theme = JStr THEME_DARK,
     isFullscreen = False, isPiP = False, controlsVisible = True, sidebarOpen = False,
     subtitlesEnabled = False, subtitleSrc = None \<rparr>"

definition loadPersistedState :: "'t store \<Rightarrow> 't store" where
  "loadPersistedState w =
     (let savedVolume = storageGet STORAGE_KEY_VOLUME JNull (localStorage w);
          w1 = (if savedVolume \<noteq> JNull
                then w\<lparr>state := (state w)\<lparr>volume := savedVolume\<rparr>\<rparr> else w);
          savedTheme = storageGet STORAGE_KEY_THEME JNull (localStorage w1);
          w2 = (if truthy savedTheme
                then w1\<lparr>state := (state w1)\<lparr>theme := savedTheme\<rparr>\<rparr> else w1);
          savedSpeed = storageGet STORAGE_KEY_PLAYBACK_SPEED JNull (localStorage w2)
      in if savedSpeed \<noteq> JNull
         then w2\<lparr>state := (state w2)\<lparr>playbackRate := savedSpeed\<rparr>\<rparr> else w2)"

text \<open>The constructor, over the storage the browser holds at that moment.\<close>

definition StateManager_new :: "local_storage \<Rightarrow> 't store" where
  "StateManager_new ls =
     loadPersistedState \<lparr>state = initial_state, localStorage = ls, emitted = []\<rparr>"

definition persistState :: "'t updates \<Rightarrow> 't store \<Rightarrow> 't store" where
  "persistState u w =
     (let w1 = (case u_volume u of
                  Some v \<Rightarrow> w\<lparr>localStorage := storageSet STORAGE_KEY_VOLUME v (localStorage w)\<rparr>
                | None \<Rightarrow> w);
          w2 = (case u_theme u of
                  Some t \<Rightarrow> w1\<lparr>localStorage := storageSet STORAGE_KEY_THEME t (localStorage w1)\<rparr>
                | None \<Rightarrow> w1)
      in case u_playbackRate u of
           Some r \<Rightarrow>
             w2\<lparr>localStorage := storageSet STORAGE_KEY_PLAYBACK_SPEED r (localStorage w2)\<rparr>
         | None \<Rightarrow> w2)"

text \<open>
  \<open>set(updates, eventName)\<close>. \<open>eventName\<close> is \<open>None\<close> when the argument is omitted;
  the empty string is falsy too.
\<close>

definition set_state :: "'t updates \<Rightarrow> string option \<Rightarrow> 't store \<Rightarrow> 't store" where
  "set_state u eventName w =
     (let previousState = state w;
          w1 = w\<lparr>state := assign (state w) u\<rparr>;
          w2 = persistState u w1
      in case eventName of
           None \<Rightarrow> w2
         | Some name \<Rightarrow>
             if name \<noteq> [] then eventBus_emit name (StateChange (state w2) previousState u) w2
             else w2)"

definition setPlaylist :: "'t list \<Rightarrow> 't store \<Rightarrow> 't store" where
  "setPlaylist pl w =
     (let w1 = set_state (no_updates\<lparr>u_playlist := Some pl,
                 u_currentTrackIndex := Some (if length pl > 0 then 0 else -1)\<rparr>) None w
      in eventBus_emit EV_PLAYLIST_UPDATE (PlaylistPayload pl) w1)"

definition addToPlaylist :: "'t list \<Rightarrow> 't store \<Rightarrow> 't store" where
  "addToPlaylist tracks w =
     (let newPlaylist = playlist (state w) @ tracks in setPlaylist newPlaylist w)"

definition removeFromPlaylist :: "int \<Rightarrow> 't store \<Rightarrow> 't store" where
  "removeFromPlaylist index w =
     (let newPlaylist = filter_indexed (\<lambda>_ i. i \<noteq> index) (playlist (state w));
          newIndex = currentTrackIndex (state w);
          newIndex' = (if index < newIndex then newIndex - 1
                       else if index = newIndex
                            then min newIndex (int (length newPlaylist) - 1)
                            else newIndex);
          w1 = set_state (no_updates\<lparr>u_playlist := Some newPlaylist,
                 u_currentTrackIndex := Some newIndex'\<rparr>) None w
      in eventBus_emit EV_PLAYLIST_UPDATE (PlaylistPayload newPlaylist) w1)"

definition setCurrentTrack :: "int \<Rightarrow> 't store \<Rightarrow> 't store" where
  "setCurrentTrack index w =
     (if index \<ge> 0 \<and> index < int (length (playlist (state w)))
      then (let w1 = set_state (no_updates\<lparr>u_currentTrackIndex := Some index\<rparr>) None w
            in eventBus_emit EV_TRACK_CHANGE
                 (TrackPayload (array_get (playlist (state w1)) index) index) w1)
      else w)"

subsection \<open>Queries\<close>

text \<open>
  Every method of the class can touch \<open>this.state\<close>, the storage and the bus, so a
  query is modelled like a mutator: it returns its result together with the store it
  leaves behind.
\<close>

datatype 't field_value =
    FUndefined | FBool bool | FNumber real | FString string | FNullable "string option"
  | FValue js_value | FTracks "'t list" | FIndices "int list"

datatype 't get_result = Snapshot "'t player_state" | Field "'t field_value"

text \<open>\<open>this.state[key]\<close>; a key the object does not have reads \<open>undefined\<close>.\<close>

definition state_field :: "'t player_state \<Rightarrow> string \<Rightarrow> 't field_value" where
  "state_field s key =
     (if key = ''isPlaying'' then FBool (isPlaying s)
      else if key = ''currentTime'' then FNumber (currentTime s)
      else if key = ''duration'' then FNumber (duration s)
      else if key = ''playbackRate'' then FValue (playbackRate s)
      else if key = ''isBuffering'' then FBool (isBuffering s)
      else if key = ''volume'' then FValue (volume s)
      else if key = ''isMuted'' then FBool (isMuted s)
      else if key = ''mediaType'' then FString (mediaType s)
      else if key = ''currentSrc'' then FNullable (currentSrc s)
      else if key = ''mediaTitle'' then FString (mediaTitle s)
      else if key = ''mediaArtist'' then FString (mediaArtist s)
      else if key = ''mediaCover'' then FNullable (mediaCover s)
      else if key = ''playlist'' then FTracks (playlist s)
      else if key = ''currentTrackIndex'' then FNumber (of_int (currentTrackIndex s))
      else if key = ''shuffleEnabled'' then FBool (shuffleEnabled s)
      else if key = ''repeatMode'' then FString (repeatMode s)
      else if key = ''shuffledOrder'' then FIndices (shuffledOrder s)
      else if key = ''theme'' then FValue (theme s)
      else if key = ''isFullscreen'' then FBool (isFullscreen s)
      else if key = ''isPiP'' then FBool (isPiP s)
      else if key = ''controlsVisible'' then FBool (controlsVisible s)
      else if key = ''sidebarOpen'' then FBool (sidebarOpen s)
      else if key = ''subtitlesEnabled'' then FBool (subtitlesEnabled s)
      else if key = ''subtitleSrc'' then FNullable (subtitleSrc s)
      else FUndefined)"

definition get :: "string option \<Rightarrow> 't store \<Rightarrow> 't get_result \<times> 't store" where
  "get key w =
     (case key of
        Some k \<Rightarrow> if k \<noteq> [] then (Field (state_field (state w) k), w)
                  else (Snapshot (state w), w)
      | None \<Rightarrow> (Snapshot (state w), w))"

datatype 't track_ref = NullTrack | UndefinedTrack | Track 't

definition getCurrentTrack :: "'t store \<Rightarrow> 't track_ref \<times> 't store" where
  "getCurrentTrack w =
     (let s = state w
      in if currentTrackIndex s \<ge> 0
         then (case array_get (playlist s) (currentTrackIndex s) of
                 Some t \<Rightarrow> (Track t, w)
               | None \<Rightarrow> (UndefinedTrack, w))
         else (NullTrack, w))"

text \<open>
  The two navigation queries return a number read from an array in some branches;
  \<open>None\<close> stands for the \<open>undefined\<close> such a read gives out of range.
\<close>

definition getNextTrackIndex :: "'t store \<Rightarrow> int option \<times> 't store" where
  "getNextTrackIndex w =
     (let s = state w
      in if length (playlist s) = 0 then (Some (-1), w)
         else if repeatMode s = REPEAT_ONE then (Some (currentTrackIndex s), w)
         else if shuffleEnabled s \<and> length (shuffledOrder s) > 0
         then (let currentShufflePos = indexOf (shuffledOrder s) (currentTrackIndex s);
                   nextShufflePos = currentShufflePos + 1
               in if nextShufflePos \<ge> int (length (shuffledOrder s))
                  then (if repeatMode s = REPEAT_ALL then array_get (shuffledOrder s) 0
                        else Some (-1), w)
                  else (array_get (shuffledOrder s) nextShufflePos, w))
         else (let nextIndex = currentTrackIndex s + 1
               in if nextIndex \<ge> int (length (playlist s))
                  then (Some (if repeatMode s = REPEAT_ALL then 0 else -1), w)
                  else (Some nextIndex, w)))"

definition getPreviousTrackIndex :: "'t store \<Rightarrow> int option \<times> 't store" where
  "getPreviousTrackIndex w =
     (let s = state w
      in if length (playlist s) = 0 then (Some (-1), w)
         else if shuffleEnabled s \<and> length (shuffledOrder s) > 0
         then (let currentShufflePos = indexOf (shuffledOrder s) (currentTrackIndex s);
                   prevShufflePos = currentShufflePos - 1
               in if prevShufflePos \<ge> 0
                  then (array_get (shuffledOrder s) prevShufflePos, w)
                  else (array_get (shuffledOrder s) (int (length (shuffledOrder s)) - 1), w))
         else (Some (if currentTrackIndex s > 0 then currentTrackIndex s - 1
                     else int (length (playlist s)) - 1), w))"

subsection \<open>Shuffle and repeat\<close>

text \<open>
  The loop of \<open>toggleShuffle\<close>. \<open>rnd\<close> is the sequence of results the coming calls of
  \<open>Math.random()\<close> give, \<open>rnd 0\<close> first; each iteration consumes one. The destructuring
  swap reads both cells before it writes them. The model follows JavaScript for draws
  in \<open>[0, 1)\<close>, the contract of \<open>Math.random\<close>.
\<close>

function shuffle_loop :: "(nat \<Rightarrow> real) \<Rightarrow> int \<Rightarrow> 'a list \<Rightarrow> 'a list" where
  "shuffle_loop rnd i indices =
     (if i > 0
      then (let j = \<lfloor>rnd 0 * (of_int i + 1)\<rfloor>;
                indices' = indices[nat i := indices ! nat j, nat j := indices ! nat i]
            in shuffle_loop (\<lambda>k. rnd (Suc k)) (i - 1) indices')
      else indices)"
  by pat_completeness auto
termination
  by (relation "measure (\<lambda>(rnd, i, indices). nat i)") auto

declare shuffle_loop.simps [simp del]

definition toggleShuffle :: "(nat \<Rightarrow> real) \<Rightarrow> 't store \<Rightarrow> 't store" where
  "toggleShuffle rnd w =
     (let shuffleEnabled' = (\<not> shuffleEnabled (state w));
          shuffledOrder' =
            (if shuffleEnabled'
             then (let indices = filter (\<lambda>i. i \<noteq> currentTrackIndex (state w))
                                   (map_indexed (\<lambda>_ i. i) (playlist (state w)));
                       indices' = shuffle_loop rnd (int (length indices) - 1) indices
                   in currentTrackIndex (state w) # indices')
             else []);
          w1 = set_state (no_updates\<lparr>u_shuffleEnabled := Some shuffleEnabled',
                 u_shuffledOrder := Some shuffledOrder'\<rparr>) None w
      in eventBus_emit EV_SHUFFLE_TOGGLE (ShufflePayload shuffleEnabled') w1)"

text \<open>
  \<open>%\<close> is the truncating remainder (\<open>smod\<close>). \<open>indexOf\<close> is at least \<open>-1\<close>, so the
  position read from \<open>modes\<close> is always one of 0, 1, 2 (lemma \<open>cycle_position\<close>).
\<close>

definition cycleRepeatMode :: "'t store \<Rightarrow> 't store" where
  "cycleRepeatMode w =
     (let modes = [REPEAT_OFF, REPEAT_ALL, REPEAT_ONE];
          currentIndex = indexOf modes (repeatMode (state w));
          nextMode = modes ! nat ((currentIndex + 1) smod int (length modes));
          w1 = set_state (no_updates\<lparr>u_repeatMode := Some nextMode\<rparr>) None w
      in eventBus_emit EV_REPEAT_TOGGLE (RepeatPayload nextMode) w1)"

section \<open>EventBus\<close>

text \<open>
  \<open>this.events\<close> is a \<open>Map\<close> from event names to \<open>Set\<close>s of callbacks. A \<open>Set\<close> keeps
  its members in insertion order and holds each at most once; callbacks are compared
  by identity, so \<open>'h\<close> is the type of function identities.
\<close>

definition Set_add :: "'h \<Rightarrow> 'h list \<Rightarrow> 'h list" where
  "Set_add x xs = (if x \<in> set xs then xs else xs @ [x])"

definition Set_delete :: "'h \<Rightarrow> 'h list \<Rightarrow> 'h list" where
  "Set_delete x xs = removeAll x xs"

record 'h event_bus =
  events :: "string \<rightharpoonup> 'h list"

definition EventBus_new :: "'h event_bus" where
  "EventBus_new = \<lparr>events = Map.empty\<rparr>"

definition off :: "string \<Rightarrow> 'h \<Rightarrow> 'h event_bus \<Rightarrow> 'h event_bus" where
  "off event callback b =
     (case events b event of
        Some hs \<Rightarrow> b\<lparr>events := (events b)(event \<mapsto> Set_delete callback hs)\<rparr>
      | None \<Rightarrow> b)"

text \<open>The function \<open>on\<close> returns, \<open>() => this.off(event, callback)\<close>, is a closure over
  the two arguments.\<close>

datatype 'h unsubscribe = Unsubscribe string 'h

fun call_unsubscribe :: "'h unsubscribe \<Rightarrow> 'h event_bus \<Rightarrow> 'h event_bus" where
  "call_unsubscribe (Unsubscribe event callback) b = off event callback b"

definition on :: "string \<Rightarrow> 'h \<Rightarrow> 'h event_bus \<Rightarrow> 'h unsubscribe \<times> 'h event_bus" where
  "on event callback b =
     (let b1 = (if events b event = None then b\<lparr>events := (events b)(event \<mapsto> [])\<rparr> else b);
          b2 = (case events b1 event of
                  Some hs \<Rightarrow> b1\<lparr>events := (events b1)(event \<mapsto> Set_add callback hs)\<rparr>
                | None \<Rightarrow> b1)
      in (Unsubscribe event callback, b2))"

text \<open>
  \<open>emit\<close> calls every callback of the event, in the order of the \<open>Set\<close>; an exception
  in one is caught, so the others still run. The result is the list of calls made.
\<close>

definition emit :: "string \<Rightarrow> 'd \<Rightarrow> 'h event_bus \<Rightarrow> ('h \<times> 'd) list" where
  "emit event data b =
     (case events b event of
        Some hs \<Rightarrow> map (\<lambda>callback. (callback, data)) hs
      | None \<Rightarrow> [])"

definition clear :: "string option \<Rightarrow> 'h event_bus \<Rightarrow> 'h event_bus" where
  "clear event b =
     (case event of
        Some e \<Rightarrow> if e \<noteq> [] then b\<lparr>events := (events b)(e := None)\<rparr>
                  else b\<lparr>events := Map.empty\<rparr>
      | None \<Rightarrow> b\<lparr>events := Map.empty\<rparr>)"

definition listenerCount :: "string \<Rightarrow> 'h event_bus \<Rightarrow> nat" where
  "listenerCount event b = (case events b event of Some hs \<Rightarrow> length hs | None \<Rightarrow> 0)"

section \<open>Specification-side definitions\<close>

text \<open>A store whose playlist fields are given and whose other fields are the defaults.\<close>

definition store_with ::
  "string list \<Rightarrow> int \<Rightarrow> bool \<Rightarrow> string \<Rightarrow> int list \<Rightarrow> string store" where
  "store_with pl c sh rm so =
     \<lparr>state = initial_state\<lparr>playlist := pl, currentTrackIndex := c, shuffleEnabled := sh,
                repeatMode := rm, shuffledOrder := so\<rparr>,
      localStorage = Map.empty, emitted = []\<rparr>"

text \<open>
  The next index as the specification words it: the position of the current index in
  the shuffle order is what \<open>indexOf\<close> finds, and "last" is the last position.
\<close>

definition next_track_spec :: "'t player_state \<Rightarrow> int" where
  "next_track_spec s =
     (if playlist s = [] then -1
      else if repeatMode s = REPEAT_ONE then currentTrackIndex s
      else if shuffleEnabled s \<and> shuffledOrder s \<noteq> []
      then (let pos = indexOf (shuffledOrder s) (currentTrackIndex s)
            in if pos = int (length (shuffledOrder s)) - 1
               then (if repeatMode s = REPEAT_ALL then shuffledOrder s ! 0 else -1)
               else shuffledOrder s ! nat (pos + 1))
      else (if currentTrackIndex s + 1 < int (length (playlist s))
            then currentTrackIndex s + 1
            else if repeatMode s = REPEAT_ALL then 0 else -1))"

text \<open>
  The previous index as the specification claims it (sequential mode wraps only under
  repeat-all), and as the code computes it (sequential mode always wraps).
\<close>

definition previous_track_claimed :: "'t player_state \<Rightarrow> int" where
  "previous_track_claimed s =
     (if playlist s = [] then -1
      else if shuffleEnabled s \<and> shuffledOrder s \<noteq> []
      then (let pos = indexOf (shuffledOrder s) (currentTrackIndex s)
            in if pos > 0 then shuffledOrder s ! nat (pos - 1) else last (shuffledOrder s))
      else (if currentTrackIndex s > 0 then currentTrackIndex s - 1
            else if repeatMode s = REPEAT_ALL then int (length (playlist s)) - 1 else -1))"

definition previous_track_spec :: "'t player_state \<Rightarrow> int" where
  "previous_track_spec s =
     (if playlist s = [] then -1
      else if shuffleEnabled s \<and> shuffledOrder s \<noteq> []
      then (let pos = indexOf (shuffledOrder s) (currentTrackIndex s)
            in if pos > 0 then shuffledOrder s ! nat (pos - 1) else last (shuffledOrder s))
      else (if currentTrackIndex s > 0 then currentTrackIndex s - 1
            else int (length (playlist s)) - 1))"

text \<open>
  The two invariants of the data model. \<open>index_inv\<close>: the current index is \<open>-1\<close> or a
  position of the playlist. \<open>shuffle_inv\<close>: the shuffle order is empty or a permutation
  of the positions \<open>0, \<dots>, length playlist - 1\<close>.
\<close>

definition index_inv :: "'t player_state \<Rightarrow> bool" where
  "index_inv s \<longleftrightarrow>
     currentTrackIndex s = -1
     \<or> (0 \<le> currentTrackIndex s \<and> currentTrackIndex s < int (length (playlist s)))"

definition permutation_of_indices :: "int list \<Rightarrow> nat \<Rightarrow> bool" where
  "permutation_of_indices xs n \<longleftrightarrow> mset xs = mset (map int [0..<n])"

definition shuffle_inv :: "'t player_state \<Rightarrow> bool" where
  "shuffle_inv s \<longleftrightarrow>
     shuffledOrder s = []
     \<or> permutation_of_indices (shuffledOrder s) (length (playlist s))"

text \<open>The callbacks an event has, in call order; none when the event has no entry.\<close>

definition registered :: "string \<Rightarrow> 'h event_bus \<Rightarrow> 'h list" where
  "registered event b = (case events b event of Some hs \<Rightarrow> hs | None \<Rightarrow> [])"

section \<open>Basic facts\<close>

lemmas constants_defs =
  DEFAULT_SPEED_def DEFAULT_VOLUME_def STORAGE_KEY_VOLUME_def STORAGE_KEY_THEME_def
  STORAGE_KEY_PLAYBACK_SPEED_def THEME_DARK_def THEME_LIGHT_def MEDIA_TYPE_VIDEO_def
  REPEAT_OFF_def REPEAT_ALL_def REPEAT_ONE_def EV_PLAYLIST_UPDATE_def EV_TRACK_CHANGE_def
  EV_SHUFFLE_TOGGLE_def EV_REPEAT_TOGGLE_def

lemma nat_int_pred: "nat (int n - 1) = n - 1"
  by arith

subsection \<open>indexOf\<close>

lemma indexOf_ge: "indexOf xs x \<ge> -1"
  by (induction xs) (auto simp: Let_def)

lemma indexOf_less: "indexOf xs x < int (length xs)"
  by (induction xs) (auto simp: Let_def)

lemma indexOf_notin: "x \<notin> set xs \<Longrightarrow> indexOf xs x = -1"
  by (induction xs) (auto simp: Let_def)

lemma indexOf_in: "x \<in> set xs \<Longrightarrow> 0 \<le> indexOf xs x \<and> xs ! nat (indexOf xs x) = x"
  by (induction xs) (auto simp: Let_def nat_add_distrib)

lemma indexOf_first: "j < nat (indexOf xs x) \<Longrightarrow> xs ! j \<noteq> x"
proof (induction xs arbitrary: j)
  case Nil
  then show ?case by simp
next
  case (Cons y ys)
  then show ?case
    by (cases j) (auto simp: Let_def nat_add_distrib split: if_splits)
qed

subsection \<open>Removing one position with an indexed filter\<close>

lemma filter_indexed_offset:
  "map fst (filter (\<lambda>(v, j). j \<noteq> i) (zip xs (map int [k..<k + length xs]))) =
     (if int k \<le> i \<and> i < int (k + length xs)
      then take (nat i - k) xs @ drop (Suc (nat i - k)) xs else xs)"
proof (induction xs arbitrary: k)
  case Nil
  then show ?case by simp
next
  case (Cons x xs)
  have upt: "[k..<k + length (x # xs)] = k # [Suc k..<Suc k + length xs]"
    by (subst upt_rec) simp
  show ?case
  proof (cases "i = int k")
    case True
    then show ?thesis
      unfolding upt using Cons.IH [of "Suc k"] by (simp del: upt_Suc)
  next
    case False
    have "int k < i \<Longrightarrow> nat i - k = Suc (nat i - Suc k)"
      by arith
    with False show ?thesis
      unfolding upt using Cons.IH [of "Suc k"] by (auto simp del: upt_Suc)
  qed
qed

lemma filter_indexed_remove:
  assumes "0 \<le> i" "i < int (length xs)"
  shows "filter_indexed (\<lambda>_ k. k \<noteq> i) xs = take (nat i) xs @ drop (Suc (nat i)) xs"
  using assms filter_indexed_offset [of i xs 0] by (simp add: filter_indexed_def)

lemma filter_indexed_keep:
  assumes "i < 0 \<or> int (length xs) \<le> i"
  shows "filter_indexed (\<lambda>_ k. k \<noteq> i) xs = xs"
  using assms filter_indexed_offset [of i xs 0] by (auto simp: filter_indexed_def)

subsection \<open>What \<open>set\<close> does to the three parts of the store\<close>

lemma state_set_state [simp]: "state (set_state u ev w) = assign (state w) u"
  by (simp add: set_state_def persistState_def eventBus_emit_def Let_def split: option.split)

lemma emitted_set_state_None [simp]: "emitted (set_state u None w) = emitted w"
  by (simp add: set_state_def persistState_def Let_def split: option.split)

lemma state_eventBus_emit [simp]: "state (eventBus_emit e d w) = state w"
  by (simp add: eventBus_emit_def)

lemma emitted_eventBus_emit [simp]: "emitted (eventBus_emit e d w) = emitted w @ [(e, d)]"
  by (simp add: eventBus_emit_def)

lemma localStorage_eventBus_emit [simp]: "localStorage (eventBus_emit e d w) = localStorage w"
  by (simp add: eventBus_emit_def)

lemma state_setPlaylist:
  "state (setPlaylist pl w) =
     (state w)\<lparr>playlist := pl, currentTrackIndex := (if pl = [] then -1 else 0)\<rparr>"
  by (simp add: setPlaylist_def assign_def no_updates_def or_old_def)

lemma state_removeFromPlaylist:
  "state (removeFromPlaylist i w) =
     (state w)\<lparr>playlist := filter_indexed (\<lambda>_ k. k \<noteq> i) (playlist (state w)),
       currentTrackIndex :=
         (if i < currentTrackIndex (state w) then currentTrackIndex (state w) - 1
          else if i = currentTrackIndex (state w)
               then min (currentTrackIndex (state w))
                      (int (length (filter_indexed (\<lambda>_ k. k \<noteq> i) (playlist (state w)))) - 1)
               else currentTrackIndex (state w))\<rparr>"
  by (simp add: removeFromPlaylist_def assign_def no_updates_def or_old_def Let_def)

lemma state_setCurrentTrack:
  "state (setCurrentTrack i w) =
     (if 0 \<le> i \<and> i < int (length (playlist (state w)))
      then (state w)\<lparr>currentTrackIndex := i\<rparr> else state w)"
  by (simp add: setCurrentTrack_def assign_def no_updates_def or_old_def Let_def)

lemma cycle_position:
  "0 \<le> (indexOf xs x + 1) smod 3 \<and> (indexOf xs x + 1) smod 3 < 3"
proof -
  have "0 \<le> indexOf xs x + 1" using indexOf_ge [of xs x] by simp
  then show ?thesis
    by (simp add: smod_int_alt_def sgn_if)
qed

lemma state_cycleRepeatMode:
  "state (cycleRepeatMode w) =
     (state w)\<lparr>repeatMode :=
        [REPEAT_OFF, REPEAT_ALL, REPEAT_ONE] !
          nat ((indexOf [REPEAT_OFF, REPEAT_ALL, REPEAT_ONE] (repeatMode (state w)) + 1) smod 3)\<rparr>"
  by (simp add: cycleRepeatMode_def assign_def no_updates_def or_old_def Let_def)

lemma state_toggleShuffle_fields:
  "playlist (state (toggleShuffle rnd w)) = playlist (state w)
   \<and> currentTrackIndex (state (toggleShuffle rnd w)) = currentTrackIndex (state w)"
  by (simp add: toggleShuffle_def assign_def no_updates_def or_old_def Let_def)

lemma store_with_fields [simp]:
  "playlist (state (store_with pl c sh rm so)) = pl"
  "currentTrackIndex (state (store_with pl c sh rm so)) = c"
  "shuffleEnabled (state (store_with pl c sh rm so)) = sh"
  "repeatMode (state (store_with pl c sh rm so)) = rm"
  "shuffledOrder (state (store_with pl c sh rm so)) = so"
  "emitted (store_with pl c sh rm so) = []"
  by (simp_all add: store_with_def)

lemma store_with_update:
  "(state (store_with pl c sh rm so))\<lparr>playlist := pl', currentTrackIndex := c'\<rparr>
     = state (store_with pl' c' sh rm so)"
  by (simp add: store_with_def)

lemma initial_state_fields [simp]:
  "playlist initial_state = []"
  "currentTrackIndex initial_state = -1"
  "shuffleEnabled initial_state = False"
  "shuffledOrder initial_state = []"
  by (simp_all add: initial_state_def)

lemma StateManager_new_empty:
  "StateManager_new Map.empty = \<lparr>state = initial_state, localStorage = Map.empty, emitted = []\<rparr>"
  by (simp add: StateManager_new_def loadPersistedState_def storageGet_def Let_def)

lemma currentTrackIndex_removeFromPlaylist:
  "currentTrackIndex (state (removeFromPlaylist i w)) =
         (if i < currentTrackIndex (state w) then currentTrackIndex (state w) - 1
          else if i = currentTrackIndex (state w)
               then min (currentTrackIndex (state w))
                      (int (length (filter_indexed (\<lambda>_ k. k \<noteq> i) (playlist (state w)))) - 1)
               else currentTrackIndex (state w))"
  by (simp add: state_removeFromPlaylist)

lemma playlist_removeFromPlaylist:
  "playlist (state (removeFromPlaylist i w)) =
     filter_indexed (\<lambda>_ k. k \<noteq> i) (playlist (state w))"
  by (simp add: state_removeFromPlaylist)

lemma shuffledOrder_toggleShuffle:
  "shuffledOrder (state (toggleShuffle rnd w)) =
     (if shuffleEnabled (state w) then []
      else currentTrackIndex (state w) #
           shuffle_loop rnd
             (int (length (filter (\<lambda>i. i \<noteq> currentTrackIndex (state w))
                      (map_indexed (\<lambda>_ i. i) (playlist (state w))))) - 1)
             (filter (\<lambda>i. i \<noteq> currentTrackIndex (state w))
                (map_indexed (\<lambda>_ i. i) (playlist (state w)))))"
  by (simp add: toggleShuffle_def assign_def no_updates_def or_old_def Let_def)

lemma shuffleEnabled_toggleShuffle:
  "shuffleEnabled (state (toggleShuffle rnd w)) = (\<not> shuffleEnabled (state w))"
  by (simp add: toggleShuffle_def assign_def no_updates_def or_old_def Let_def)

lemma shuffledOrder_setPlaylist [simp]:
  "shuffledOrder (state (setPlaylist pl w)) = shuffledOrder (state w)"
  by (simp add: state_setPlaylist)

lemma playlist_setPlaylist [simp]: "playlist (state (setPlaylist pl w)) = pl"
  by (simp add: state_setPlaylist)

lemma shuffledOrder_removeFromPlaylist [simp]:
  "shuffledOrder (state (removeFromPlaylist i w)) = shuffledOrder (state w)"
  by (simp add: state_removeFromPlaylist)

lemma shuffle_fields_setCurrentTrack [simp]:
  "shuffledOrder (state (setCurrentTrack i w)) = shuffledOrder (state w)"
  "playlist (state (setCurrentTrack i w)) = playlist (state w)"
  by (simp_all add: state_setCurrentTrack)

lemma shuffle_fields_cycleRepeatMode [simp]:
  "shuffledOrder (state (cycleRepeatMode w)) = shuffledOrder (state w)"
  "playlist (state (cycleRepeatMode w)) = playlist (state w)"
  by (simp_all add: state_cycleRepeatMode)

section \<open>Navigation queries\<close>

text \<open>
  C1. For every store, \<open>getNextTrackIndex\<close> returns a number (never \<open>undefined\<close>), and
  that number is: \<open>-1\<close> on an empty playlist; else the current index under repeat-one;
  else, with shuffle on and a non-empty shuffle order, the element after the current
  index's position in the order, wrapping to its first element at the last position
  under repeat-all and \<open>-1\<close> there otherwise; else the current index plus one, wrapping
  to \<open>0\<close> past the end only under repeat-all and \<open>-1\<close> there otherwise.
\<close>

theorem getNextTrackIndex_spec:
  "getNextTrackIndex w = (Some (next_track_spec (state w)), w)"
proof -
  let ?s = "state w"
  let ?pos = "indexOf (shuffledOrder ?s) (currentTrackIndex ?s)"
  have lo: "-1 \<le> ?pos" by (rule indexOf_ge)
  have hi: "?pos < int (length (shuffledOrder ?s))" by (rule indexOf_less)
  show ?thesis
    using lo hi
    by (auto simp: getNextTrackIndex_def next_track_spec_def Let_def array_get_def)
qed

text \<open>The two examples of the specification: three tracks, the last one current.\<close>

lemma getNextTrackIndex_end_repeat_off:
  "fst (getNextTrackIndex (store_with [''A'', ''B'', ''C''] 2 False REPEAT_OFF [])) = Some (-1)"
  by (simp add: getNextTrackIndex_def store_with_def initial_state_def constants_defs)

lemma getNextTrackIndex_end_repeat_all:
  "fst (getNextTrackIndex (store_with [''A'', ''B'', ''C''] 2 False REPEAT_ALL [])) = Some 0"
  by (simp add: getNextTrackIndex_def store_with_def initial_state_def constants_defs)

text \<open>
  C3, as claimed, fails: with three tracks, the first one current, shuffle off and
  repeat off, the claim gives \<open>-1\<close> and the code gives \<open>2\<close>.
\<close>

theorem getPreviousTrackIndex_claimed_counterexample:
  "fst (getPreviousTrackIndex (store_with [''A'', ''B'', ''C''] 0 False REPEAT_OFF [])) = Some 2
   \<and> previous_track_claimed (state (store_with [''A'', ''B'', ''C''] 0 False REPEAT_OFF [])) = -1"
  by (simp add: getPreviousTrackIndex_def previous_track_claimed_def store_with_def
      initial_state_def constants_defs)

text \<open>
  C3, amended. For every store, \<open>getPreviousTrackIndex\<close> returns a number: \<open>-1\<close> on an
  empty playlist; with shuffle on and a non-empty shuffle order, the element before
  the current index's position in the order, wrapping to the last element of the
  order whatever the repeat mode; otherwise the current index minus one when that
  index is positive, and the last playlist index when it is not, whatever the repeat
  mode. The function never reads \<open>repeatMode\<close>.
\<close>

theorem getPreviousTrackIndex_spec:
  "getPreviousTrackIndex w = (Some (previous_track_spec (state w)), w)"
proof -
  let ?s = "state w"
  let ?pos = "indexOf (shuffledOrder ?s) (currentTrackIndex ?s)"
  have hi: "?pos < int (length (shuffledOrder ?s))" by (rule indexOf_less)
  have lst: "shuffledOrder ?s \<noteq> [] \<Longrightarrow>
      shuffledOrder ?s ! nat (int (length (shuffledOrder ?s)) - 1) = last (shuffledOrder ?s)"
    by (simp add: last_conv_nth nat_int_pred)
  show ?thesis
    using hi lst
    by (auto simp: getPreviousTrackIndex_def previous_track_spec_def Let_def array_get_def)
qed

text \<open>
  C10. The queries \<open>get\<close>, \<open>getCurrentTrack\<close>, \<open>getNextTrackIndex\<close> and
  \<open>getPreviousTrackIndex\<close> leave the whole store as it was: the state, the storage and
  the list of published events.
\<close>

theorem queries_leave_store_unchanged:
  "snd (get key w) = w \<and> snd (getCurrentTrack w) = w
   \<and> snd (getNextTrackIndex w) = w \<and> snd (getPreviousTrackIndex w) = w"
  by (simp add: get_def getCurrentTrack_def getNextTrackIndex_def getPreviousTrackIndex_def
      Let_def split: option.split)

section \<open>Removing a track\<close>

lemma length_remove_position:
  assumes "0 \<le> i" and "i < int (length xs)"
  shows "int (length (take (nat i) xs @ drop (Suc (nat i)) xs)) = int (length xs) - 1"
proof -
  have "nat i < length xs" using assms by simp
  then have "length (take (nat i) xs @ drop (Suc (nat i)) xs) = length xs - 1"
    by simp
  moreover have "0 < length xs" using assms by (cases xs) simp_all
  ultimately show ?thesis by linarith
qed

lemma state_after_remove_in_range:
  assumes "0 \<le> i" and "i < int (length (playlist (state w)))"
  shows "state (removeFromPlaylist i w) =
           (state w)\<lparr>playlist := take (nat i) (playlist (state w))
                                  @ drop (Suc (nat i)) (playlist (state w)),
             currentTrackIndex :=
               (if i < currentTrackIndex (state w) then currentTrackIndex (state w) - 1
                else if i = currentTrackIndex (state w)
                     then min (currentTrackIndex (state w))
                            (int (length (playlist (state w))) - 2)
                     else currentTrackIndex (state w))\<rparr>"
proof -
  let ?pl = "playlist (state w)"
  have rm: "filter_indexed (\<lambda>_ k. k \<noteq> i) ?pl = take (nat i) ?pl @ drop (Suc (nat i)) ?pl"
    using assms by (rule filter_indexed_remove)
  have len: "int (length (take (nat i) ?pl @ drop (Suc (nat i)) ?pl)) - 1 = int (length ?pl) - 2"
    using length_remove_position [OF assms] by linarith
  show ?thesis
    by (simp only: state_removeFromPlaylist rm len)
qed

lemma index_arith:
  fixes c i n :: int
  assumes "c = -1 \<or> (0 \<le> c \<and> c < n)" and "0 \<le> i" and "i < n"
  shows "(if i < c then c - 1 else if i = c then min c (n - 2) else c) = -1
         \<or> (0 \<le> (if i < c then c - 1 else if i = c then min c (n - 2) else c)
            \<and> (if i < c then c - 1 else if i = c then min c (n - 2) else c) < n - 1)"
  using assms by (auto simp: min_def)

lemma index_arith_empty:
  fixes c i n :: int
  assumes "c = -1 \<or> (0 \<le> c \<and> c < n)" and "0 \<le> i" and "i < n" and "n - 1 = 0"
  shows "(if i < c then c - 1 else if i = c then min c (n - 2) else c) = -1"
  using assms by (auto simp: min_def)

lemma index_inv_after_remove_in_range:
  assumes "0 \<le> i" and "i < int (length (playlist (state w)))" and "index_inv (state w)"
  shows "index_inv (state (removeFromPlaylist i w))"
proof -
  have inv: "currentTrackIndex (state w) = -1
      \<or> (0 \<le> currentTrackIndex (state w)
         \<and> currentTrackIndex (state w) < int (length (playlist (state w))))"
    using assms(3) by (simp only: index_inv_def)
  show ?thesis
    using index_arith [OF inv assms(1,2)] length_remove_position [OF assms(1,2)]
    by (simp add: state_after_remove_in_range [OF assms(1,2)] index_inv_def)
qed

lemma removeFromPlaylist_last_track:
  assumes "0 \<le> i" and "i < int (length (playlist (state w)))" and "index_inv (state w)"
    and "playlist (state (removeFromPlaylist i w)) = []"
  shows "currentTrackIndex (state (removeFromPlaylist i w)) = -1"
proof -
  have inv: "currentTrackIndex (state w) = -1
      \<or> (0 \<le> currentTrackIndex (state w)
         \<and> currentTrackIndex (state w) < int (length (playlist (state w))))"
    using assms(3) by (simp only: index_inv_def)
  have "take (nat i) (playlist (state w)) @ drop (Suc (nat i)) (playlist (state w)) = []"
    using assms(4) by (simp add: state_after_remove_in_range [OF assms(1,2)])
  then have "int (length (playlist (state w))) - 1 = 0"
    using length_remove_position [OF assms(1,2)] by (simp only: list.size of_nat_0)
  from index_arith_empty [OF inv assms(1,2) this] show ?thesis
    by (simp add: state_after_remove_in_range [OF assms(1,2)])
qed

text \<open>
  C5. For every store and every position \<open>i\<close> of its playlist,
  \<open>removeFromPlaylist i\<close> changes two fields only. The playlist loses exactly the entry at
  \<open>i\<close>. The current index is decremented when \<open>i\<close> is before it, clamped to
  the new last index (old length minus two) when \<open>i\<close> is the current index, and
  unchanged otherwise. When the current index was \<open>-1\<close> or a position of the
  playlist, it is \<open>-1\<close> if the playlist becomes empty, and it is again \<open>-1\<close> or a
  position of the new playlist.
\<close>

theorem removeFromPlaylist_in_range:
  assumes "0 \<le> i" and "i < int (length (playlist (state w)))"
  shows "state (removeFromPlaylist i w) =
           (state w)\<lparr>playlist := take (nat i) (playlist (state w))
                                  @ drop (Suc (nat i)) (playlist (state w)),
             currentTrackIndex :=
               (if i < currentTrackIndex (state w) then currentTrackIndex (state w) - 1
                else if i = currentTrackIndex (state w)
                     then min (currentTrackIndex (state w))
                            (int (length (playlist (state w))) - 2)
                     else currentTrackIndex (state w))\<rparr>
         \<and> (index_inv (state w) \<and> playlist (state (removeFromPlaylist i w)) = []
              \<longrightarrow> currentTrackIndex (state (removeFromPlaylist i w)) = -1)
         \<and> (index_inv (state w) \<longrightarrow> index_inv (state (removeFromPlaylist i w)))"
proof (intro conjI impI)
  show "state (removeFromPlaylist i w) =
           (state w)\<lparr>playlist := take (nat i) (playlist (state w))
                                  @ drop (Suc (nat i)) (playlist (state w)),
             currentTrackIndex :=
               (if i < currentTrackIndex (state w) then currentTrackIndex (state w) - 1
                else if i = currentTrackIndex (state w)
                     then min (currentTrackIndex (state w))
                            (int (length (playlist (state w))) - 2)
                     else currentTrackIndex (state w))\<rparr>"
    using assms by (rule state_after_remove_in_range)
next
  assume "index_inv (state w) \<and> playlist (state (removeFromPlaylist i w)) = []"
  then show "currentTrackIndex (state (removeFromPlaylist i w)) = -1"
    using assms removeFromPlaylist_last_track by blast
next
  assume "index_inv (state w)"
  then show "index_inv (state (removeFromPlaylist i w))"
    using assms index_inv_after_remove_in_range by blast
qed

text \<open>
  The example of the specification: removing the current, last track of three leaves
  the current index at 1; removing the only track leaves it at \<open>-1\<close>.
\<close>

theorem removeFromPlaylist_in_range_witness:
  "state (removeFromPlaylist 2 (store_with [''A'', ''B'', ''C''] 2 False REPEAT_OFF [])) =
     state (store_with [''A'', ''B''] 1 False REPEAT_OFF [])
   \<and> state (removeFromPlaylist 0 (store_with [''A''] 0 False REPEAT_OFF [])) =
     state (store_with [] (-1) False REPEAT_OFF [])"
proof -
  have a: "(0::int) \<le> 2"
    and b: "2 < int (length (playlist (state (store_with [''A'', ''B'', ''C''] 2 False REPEAT_OFF []))))"
    by simp_all
  have c: "(0::int) \<le> 0"
    and d: "0 < int (length (playlist (state (store_with [''A''] 0 False REPEAT_OFF []))))"
    by simp_all
  have "state (removeFromPlaylist 2 (store_with [''A'', ''B'', ''C''] 2 False REPEAT_OFF [])) =
     state (store_with [''A'', ''B''] 1 False REPEAT_OFF [])"
    using removeFromPlaylist_in_range [OF a b, THEN conjunct1]
    by (simp add: store_with_update)
  moreover have "state (removeFromPlaylist 0 (store_with [''A''] 0 False REPEAT_OFF [])) =
     state (store_with [] (-1) False REPEAT_OFF [])"
    using removeFromPlaylist_in_range [OF c d, THEN conjunct1]
    by (simp add: store_with_update)
  ultimately show ?thesis by (rule conjI)
qed

section \<open>Out-of-range indices\<close>

text \<open>\<open>setCurrentTrack\<close> checks its index: out of range, the store is untouched.\<close>

lemma setCurrentTrack_out_of_range:
  "i < 0 \<or> int (length (playlist (state w))) \<le> i \<Longrightarrow> setCurrentTrack i w = w"
  by (auto simp: setCurrentTrack_def)

lemma removeFromPlaylist_always_publishes:
  "emitted (removeFromPlaylist i w) =
     emitted w @ [(EV_PLAYLIST_UPDATE,
                   PlaylistPayload (filter_indexed (\<lambda>_ k. k \<noteq> i) (playlist (state w))))]"
  by (simp add: removeFromPlaylist_def Let_def)

text \<open>
  \<open>removeFromPlaylist\<close> has no such check. The filter drops nothing for an index that
  is no position, but the current index is still compared with it and the
  playlist-update event is still published.
\<close>

lemma filter_indexed_AB:
  "filter_indexed (\<lambda>_ k. k \<noteq> -1) [''A'', ''B''] = [''A'', ''B'']"
  "filter_indexed (\<lambda>_ k. k \<noteq> 2) [''A'', ''B''] = [''A'', ''B'']"
  by (simp_all add: filter_indexed_keep)

text \<open>
  C7 at a failing input. Two tracks, the second one current. \<open>removeFromPlaylist(-1)\<close>
  keeps both tracks, moves the current index from 1 to 0 and publishes a
  playlist-update event; \<open>removeFromPlaylist(2)\<close> publishes the event as well.
\<close>

theorem removeFromPlaylist_out_of_range_not_ignored:
  "currentTrackIndex
     (state (removeFromPlaylist (-1) (store_with [''A'', ''B''] 1 False REPEAT_OFF []))) = 0
   \<and> playlist
     (state (removeFromPlaylist (-1) (store_with [''A'', ''B''] 1 False REPEAT_OFF [])))
       = [''A'', ''B'']
   \<and> emitted (removeFromPlaylist (-1) (store_with [''A'', ''B''] 1 False REPEAT_OFF [])) =
     [(EV_PLAYLIST_UPDATE, PlaylistPayload [''A'', ''B''])]
   \<and> emitted (removeFromPlaylist 2 (store_with [''A'', ''B''] 1 False REPEAT_OFF [])) =
     [(EV_PLAYLIST_UPDATE, PlaylistPayload [''A'', ''B''])]"
  by (simp add: currentTrackIndex_removeFromPlaylist playlist_removeFromPlaylist
      removeFromPlaylist_always_publishes filter_indexed_AB)

section \<open>The current index stays valid\<close>

lemma index_inv_setPlaylist: "index_inv (state (setPlaylist pl w))"
  by (simp add: state_setPlaylist index_inv_def)

lemma index_inv_addToPlaylist: "index_inv (state (addToPlaylist tracks w))"
  by (simp add: addToPlaylist_def index_inv_setPlaylist)

lemma index_inv_setCurrentTrack:
  "index_inv (state w) \<Longrightarrow> index_inv (state (setCurrentTrack i w))"
  by (simp add: state_setCurrentTrack index_inv_def)

lemma index_inv_toggleShuffle:
  "index_inv (state w) \<Longrightarrow> index_inv (state (toggleShuffle rnd w))"
  by (simp add: state_toggleShuffle_fields index_inv_def)

lemma index_inv_cycleRepeatMode:
  "index_inv (state w) \<Longrightarrow> index_inv (state (cycleRepeatMode w))"
  by (simp add: state_cycleRepeatMode index_inv_def)

lemma index_inv_after_remove_out_of_range:
  assumes "index_inv (state w)"
    and "i < 0 \<or> int (length (playlist (state w))) \<le> i"
    and "-1 \<le> i \<or> 0 \<le> currentTrackIndex (state w)"
  shows "index_inv (state (removeFromPlaylist i w))"
proof -
  have keep: "filter_indexed (\<lambda>_ k. k \<noteq> i) (playlist (state w)) = playlist (state w)"
    using assms(2) by (rule filter_indexed_keep)
  have inv: "currentTrackIndex (state w) = -1
      \<or> (0 \<le> currentTrackIndex (state w)
         \<and> currentTrackIndex (state w) < int (length (playlist (state w))))"
    using assms(1) by (simp only: index_inv_def)
  show ?thesis
    unfolding index_inv_def currentTrackIndex_removeFromPlaylist playlist_removeFromPlaylist keep
    using inv assms(2,3) by (auto simp: min_def)
qed

text \<open>
  C6 at a failing input. On a freshly constructed store (empty playlist, current index
  \<open>-1\<close>), \<open>removeFromPlaylist(-2)\<close> decrements the current index to \<open>-2\<close>, which is
  neither \<open>-1\<close> nor a position of the playlist.
\<close>

theorem removeFromPlaylist_breaks_index_inv:
  "index_inv (state (StateManager_new Map.empty :: string store))
   \<and> currentTrackIndex
        (state (removeFromPlaylist (-2) (StateManager_new Map.empty :: string store))) = -2
   \<and> \<not> index_inv (state (removeFromPlaylist (-2) (StateManager_new Map.empty :: string store)))"
  by (simp add: StateManager_new_empty index_inv_def currentTrackIndex_removeFromPlaylist
      playlist_removeFromPlaylist filter_indexed_def)

section \<open>Shuffle\<close>

lemma random_position:
  fixes r :: real and i :: int
  assumes "0 \<le> r" and "r < 1" and "0 < i"
  shows "0 \<le> \<lfloor>r * (of_int i + 1)\<rfloor> \<and> \<lfloor>r * (of_int i + 1)\<rfloor> \<le> i"
proof -
  have pos: "0 < (of_int i + 1 :: real)" using assms(3) by simp
  have "0 \<le> r * (of_int i + 1)" using assms(1) pos by simp
  then have lo: "0 \<le> \<lfloor>r * (of_int i + 1)\<rfloor>" by simp
  have "r * (of_int i + 1) < 1 * (of_int i + 1)"
    using assms(2) pos by (rule mult_strict_right_mono)
  then have "r * (of_int i + 1) < of_int (i + 1)" by simp
  then have "\<lfloor>r * (of_int i + 1)\<rfloor> < i + 1" by (simp only: floor_less_iff)
  with lo show ?thesis by simp
qed

lemma shuffle_loop_length:
  "length (shuffle_loop rnd i xs) = length xs"
proof (induction rnd i xs rule: shuffle_loop.induct)
  case (1 rnd i indices)
  show ?case
  proof (cases "i > 0")
    case True
    then show ?thesis
      using "1.IH" [OF True refl refl] by (subst shuffle_loop.simps) (simp add: Let_def)
  next
    case False
    then show ?thesis by (subst shuffle_loop.simps) simp
  qed
qed

lemma shuffle_loop_mset:
  assumes "\<forall>k. 0 \<le> rnd k \<and> rnd k < 1" and "i < int (length xs)"
  shows "mset (shuffle_loop rnd i xs) = mset xs"
  using assms
proof (induction rnd i xs rule: shuffle_loop.induct)
  case (1 rnd i indices)
  show ?case
  proof (cases "i > 0")
    case True
    let ?j = "\<lfloor>rnd 0 * (of_int i + 1)\<rfloor>"
    let ?ys = "indices[nat i := indices ! nat ?j, nat ?j := indices ! nat i]"
    have r: "0 \<le> rnd 0" "rnd 0 < 1" using "1.prems"(1) by simp_all
    have j: "0 \<le> ?j \<and> ?j \<le> i" using r True by (rule random_position)
    have ni: "nat i < length indices" using "1.prems"(2) True by simp
    have nj: "nat ?j < length indices" using j ni by linarith
    have swap: "mset ?ys = mset indices" using nj ni by (rule mset_swap)
    have rnd': "\<forall>k. 0 \<le> rnd (Suc k) \<and> rnd (Suc k) < 1" using "1.prems"(1) by simp
    have len: "i - 1 < int (length ?ys)" using "1.prems"(2) by simp
    have "mset (shuffle_loop (\<lambda>k. rnd (Suc k)) (i - 1) ?ys) = mset ?ys"
      using "1.IH" [OF True refl refl rnd' len] .
    then show ?thesis
      using True swap by (subst shuffle_loop.simps) (simp add: Let_def)
  next
    case False
    then show ?thesis by (subst shuffle_loop.simps) simp
  qed
qed

lemma map_indexed_positions: "map_indexed (\<lambda>_ i. i) xs = map int [0..<length xs]"
proof -
  have "(\<lambda>(v :: 'a, i :: int). i) = snd" by auto
  then show ?thesis by (simp add: map_indexed_def)
qed

lemma filter_absent: "c \<notin> set xs \<Longrightarrow> filter (\<lambda>i. i \<noteq> c) xs = xs"
  by (induction xs) auto

lemma mset_put_back:
  "distinct xs \<Longrightarrow> c \<in> set xs \<Longrightarrow> mset (c # filter (\<lambda>i. i \<noteq> c) xs) = mset xs"
  by (induction xs) (auto simp del: mset_filter simp add: filter_absent)

lemma toggleShuffle_on_permutation:
  assumes "\<not> shuffleEnabled (state w)"
    and "0 \<le> currentTrackIndex (state w)"
    and "currentTrackIndex (state w) < int (length (playlist (state w)))"
    and "\<forall>k. 0 \<le> rnd k \<and> rnd k < 1"
  shows "permutation_of_indices (shuffledOrder (state (toggleShuffle rnd w)))
           (length (playlist (state w)))"
proof -
  let ?c = "currentTrackIndex (state w)"
  let ?all = "map int [0..<length (playlist (state w))]"
  let ?rest = "filter (\<lambda>i. i \<noteq> ?c) ?all"
  have d: "distinct ?all" by (simp add: distinct_map)
  have "nat ?c \<in> set [0..<length (playlist (state w))]" using assms(2,3) by simp
  then have "int (nat ?c) \<in> set ?all" by (simp only: set_map) (rule imageI)
  then have m: "?c \<in> set ?all" using assms(2) by simp
  have "mset (shuffle_loop rnd (int (length ?rest) - 1) ?rest) = mset ?rest"
    using assms(4) by (rule shuffle_loop_mset) simp
  then have "mset (?c # shuffle_loop rnd (int (length ?rest) - 1) ?rest) = mset (?c # ?rest)"
    by simp
  also have "\<dots> = mset ?all" using d m by (rule mset_put_back)
  finally show ?thesis
    using assms(1)
    by (simp add: permutation_of_indices_def shuffledOrder_toggleShuffle map_indexed_positions)
qed

text \<open>
  C2, as claimed, fails on a store with a track but none selected: the order starts
  with the current index \<open>-1\<close>, which is no position of the playlist.
\<close>

theorem toggleShuffle_no_selection_counterexample:
  "shuffledOrder (state (toggleShuffle (\<lambda>_. 0) (store_with [''A''] (-1) False REPEAT_OFF [])))
     = [-1, 0]
   \<and> \<not> permutation_of_indices
       (shuffledOrder (state (toggleShuffle (\<lambda>_. 0) (store_with [''A''] (-1) False REPEAT_OFF []))))
       (length (playlist (state (store_with [''A''] (-1) False REPEAT_OFF []))))"
  by (simp add: shuffledOrder_toggleShuffle map_indexed_positions shuffle_loop.simps
      permutation_of_indices_def)

text \<open>
  C2, amended. If shuffle is off and the current index is a position of the playlist,
  then after \<open>toggleShuffle\<close> shuffle is on, the shuffle order is a permutation of all
  positions of the playlist and its first element is the current index, whatever
  \<open>Math.random\<close> returns within \<open>[0, 1)\<close>. If shuffle is on, then after
  \<open>toggleShuffle\<close> shuffle is off and the shuffle order is empty.
\<close>

theorem toggleShuffle_order:
  "(\<not> shuffleEnabled (state w)
      \<and> 0 \<le> currentTrackIndex (state w)
      \<and> currentTrackIndex (state w) < int (length (playlist (state w)))
      \<and> (\<forall>k. 0 \<le> rnd k \<and> rnd k < 1)
    \<longrightarrow> shuffleEnabled (state (toggleShuffle rnd w))
        \<and> permutation_of_indices (shuffledOrder (state (toggleShuffle rnd w)))
             (length (playlist (state w)))
        \<and> hd (shuffledOrder (state (toggleShuffle rnd w))) = currentTrackIndex (state w))
   \<and> (shuffleEnabled (state w)
    \<longrightarrow> \<not> shuffleEnabled (state (toggleShuffle rnd w))
        \<and> shuffledOrder (state (toggleShuffle rnd w)) = [])"
proof (intro conjI impI)
  assume a: "\<not> shuffleEnabled (state w)
      \<and> 0 \<le> currentTrackIndex (state w)
      \<and> currentTrackIndex (state w) < int (length (playlist (state w)))
      \<and> (\<forall>k. 0 \<le> rnd k \<and> rnd k < 1)"
  then show "shuffleEnabled (state (toggleShuffle rnd w))"
    by (simp add: shuffleEnabled_toggleShuffle)
  from a show "permutation_of_indices (shuffledOrder (state (toggleShuffle rnd w)))
             (length (playlist (state w)))"
    using toggleShuffle_on_permutation [of w rnd] by blast
  from a show "hd (shuffledOrder (state (toggleShuffle rnd w))) = currentTrackIndex (state w)"
    by (simp add: shuffledOrder_toggleShuffle)
next
  assume "shuffleEnabled (state w)"
  then show "\<not> shuffleEnabled (state (toggleShuffle rnd w))"
    by (simp add: shuffleEnabled_toggleShuffle)
next
  assume "shuffleEnabled (state w)"
  then show "shuffledOrder (state (toggleShuffle rnd w)) = []"
    by (simp add: shuffledOrder_toggleShuffle)
qed

theorem toggleShuffle_order_witness:
  "shuffleEnabled (state (toggleShuffle (\<lambda>_. 1 / 2)
      (store_with [''A'', ''B'', ''C'', ''D''] 1 False REPEAT_OFF [])))
   \<and> permutation_of_indices (shuffledOrder (state (toggleShuffle (\<lambda>_. 1 / 2)
      (store_with [''A'', ''B'', ''C'', ''D''] 1 False REPEAT_OFF [])))) 4
   \<and> hd (shuffledOrder (state (toggleShuffle (\<lambda>_. 1 / 2)
      (store_with [''A'', ''B'', ''C'', ''D''] 1 False REPEAT_OFF [])))) = 1
   \<and> shuffledOrder (state (toggleShuffle (\<lambda>_. 1 / 2)
      (store_with [''A'', ''B'', ''C'', ''D''] 1 True REPEAT_OFF [1, 0, 3, 2]))) = []"
  using toggleShuffle_order [of "store_with [''A'', ''B'', ''C'', ''D''] 1 False REPEAT_OFF []"
      "\<lambda>_. 1 / 2"]
    toggleShuffle_order [of "store_with [''A'', ''B'', ''C'', ''D''] 1 True REPEAT_OFF [1, 0, 3, 2]"
      "\<lambda>_. 1 / 2"]
  by (simp add: eval_nat_numeral)

lemma toggleShuffle_example:
  "shuffledOrder (state (toggleShuffle (\<lambda>_. 1 / 2)
      (store_with [''A'', ''B'', ''C'', ''D''] 1 False REPEAT_OFF []))) = [1, 0, 3, 2]"
  by (simp add: shuffledOrder_toggleShuffle map_indexed_positions shuffle_loop.simps Let_def
      upt_rec)

section \<open>The shuffle order and the playlist\<close>

lemma shuffle_inv_toggleShuffle:
  assumes "shuffleEnabled (state w)
           \<or> (0 \<le> currentTrackIndex (state w)
              \<and> currentTrackIndex (state w) < int (length (playlist (state w)))
              \<and> (\<forall>k. 0 \<le> rnd k \<and> rnd k < 1))"
  shows "shuffle_inv (state (toggleShuffle rnd w))"
proof (cases "shuffleEnabled (state w)")
  case True
  then show ?thesis by (simp add: shuffle_inv_def shuffledOrder_toggleShuffle)
next
  case False
  with assms have "permutation_of_indices (shuffledOrder (state (toggleShuffle rnd w)))
           (length (playlist (state w)))"
    using toggleShuffle_on_permutation [of w rnd] by blast
  then show ?thesis
    by (simp add: shuffle_inv_def state_toggleShuffle_fields)
qed

text \<open>
  C4, as claimed, fails: only \<open>toggleShuffle\<close> ever writes the shuffle order. With two
  tracks and the order \<open>[0, 1]\<close>, \<open>removeFromPlaylist(1)\<close> leaves one track and the
  same order, which is no permutation of the single position left.
\<close>

theorem shuffle_inv_removeFromPlaylist_counterexample:
  "shuffle_inv (state (store_with [''A'', ''B''] 0 True REPEAT_OFF [0, 1]))
   \<and> \<not> shuffle_inv
        (state (removeFromPlaylist 1 (store_with [''A'', ''B''] 0 True REPEAT_OFF [0, 1])))"
proof -
  have a: "(0::int) \<le> 1"
    and b: "1 < int (length (playlist (state (store_with [''A'', ''B''] 0 True REPEAT_OFF [0, 1]))))"
    by simp_all
  have "playlist (state (removeFromPlaylist 1 (store_with [''A'', ''B''] 0 True REPEAT_OFF [0, 1])))
          = [''A'']"
    by (simp add: state_after_remove_in_range [OF a b])
  then show ?thesis
    by (simp add: shuffle_inv_def permutation_of_indices_def upt_rec)
qed

lemma shuffle_inv_setPlaylist_stale:
  "shuffle_inv (state (store_with [''A'', ''B''] 0 True REPEAT_OFF [0, 1]))
   \<and> \<not> shuffle_inv
        (state (setPlaylist [''X''] (store_with [''A'', ''B''] 0 True REPEAT_OFF [0, 1])))"
  by (simp add: shuffle_inv_def permutation_of_indices_def upt_rec)

lemma shuffle_inv_toggleShuffle_empty_playlist:
  "shuffle_inv (state (StateManager_new Map.empty :: string store))
   \<and> shuffledOrder (state (toggleShuffle rnd (StateManager_new Map.empty :: string store))) = [-1]
   \<and> \<not> shuffle_inv (state (toggleShuffle rnd (StateManager_new Map.empty :: string store)))"
  by (simp add: StateManager_new_empty shuffle_inv_def permutation_of_indices_def
      shuffledOrder_toggleShuffle state_toggleShuffle_fields map_indexed_positions
      shuffle_loop.simps)

text \<open>
  C4, amended. From a store that satisfies \<open>shuffle_inv\<close>: \<open>setCurrentTrack\<close> and
  \<open>cycleRepeatMode\<close> preserve it; \<open>toggleShuffle\<close> yields it when it turns shuffle off,
  or turns it on with the current index at a position of the playlist;
  \<open>setPlaylist\<close>, \<open>addToPlaylist\<close> and \<open>removeFromPlaylist\<close> leave the shuffle order as it
  is, so they preserve it when the order is empty or the playlist keeps its length
  (a new playlist of the same length, no track added, an index that is no position).
\<close>

theorem shuffle_inv_preserved_amended:
  assumes "shuffle_inv (state w)"
  shows "shuffle_inv (state (setCurrentTrack i w))
       \<and> shuffle_inv (state (cycleRepeatMode w))
       \<and> (shuffleEnabled (state w)
            \<or> (0 \<le> currentTrackIndex (state w)
               \<and> currentTrackIndex (state w) < int (length (playlist (state w)))
               \<and> (\<forall>k. 0 \<le> rnd k \<and> rnd k < 1))
          \<longrightarrow> shuffle_inv (state (toggleShuffle rnd w)))
       \<and> (shuffledOrder (state w) = [] \<or> length pl = length (playlist (state w))
          \<longrightarrow> shuffle_inv (state (setPlaylist pl w)))
       \<and> (shuffledOrder (state w) = [] \<or> tracks = []
          \<longrightarrow> shuffle_inv (state (addToPlaylist tracks w)))
       \<and> (shuffledOrder (state w) = [] \<or> j < 0 \<or> int (length (playlist (state w))) \<le> j
          \<longrightarrow> shuffle_inv (state (removeFromPlaylist j w)))"
proof (intro conjI impI)
  show "shuffle_inv (state (setCurrentTrack i w))"
    using assms by (simp add: shuffle_inv_def)
  show "shuffle_inv (state (cycleRepeatMode w))"
    using assms by (simp add: shuffle_inv_def)
next
  assume "shuffleEnabled (state w)
            \<or> (0 \<le> currentTrackIndex (state w)
               \<and> currentTrackIndex (state w) < int (length (playlist (state w)))
               \<and> (\<forall>k. 0 \<le> rnd k \<and> rnd k < 1))"
  then show "shuffle_inv (state (toggleShuffle rnd w))"
    by (rule shuffle_inv_toggleShuffle)
next
  assume "shuffledOrder (state w) = [] \<or> length pl = length (playlist (state w))"
  then show "shuffle_inv (state (setPlaylist pl w))"
    using assms by (auto simp: shuffle_inv_def)
next
  assume "shuffledOrder (state w) = [] \<or> tracks = []"
  then show "shuffle_inv (state (addToPlaylist tracks w))"
    using assms by (auto simp: shuffle_inv_def addToPlaylist_def)
next
  assume a: "shuffledOrder (state w) = [] \<or> j < 0 \<or> int (length (playlist (state w))) \<le> j"
  show "shuffle_inv (state (removeFromPlaylist j w))"
  proof (cases "shuffledOrder (state w) = []")
    case True
    then show ?thesis by (simp add: shuffle_inv_def)
  next
    case False
    with a have "j < 0 \<or> int (length (playlist (state w))) \<le> j" by simp
    then have "filter_indexed (\<lambda>_ k. k \<noteq> j) (playlist (state w)) = playlist (state w)"
      by (rule filter_indexed_keep)
    then show ?thesis
      using assms by (simp add: shuffle_inv_def playlist_removeFromPlaylist)
  qed
qed

theorem shuffle_inv_preserved_amended_witness:
  "shuffle_inv (state (setCurrentTrack 2 (store_with [''A'', ''B'', ''C''] 1 False REPEAT_OFF [])))
   \<and> shuffle_inv (state (cycleRepeatMode (store_with [''A'', ''B'', ''C''] 1 False REPEAT_OFF [])))
   \<and> shuffle_inv (state (toggleShuffle (\<lambda>_. 1 / 2)
        (store_with [''A'', ''B'', ''C''] 1 False REPEAT_OFF [])))
   \<and> shuffle_inv (state (setPlaylist [''X'']
        (store_with [''A'', ''B'', ''C''] 1 False REPEAT_OFF [])))
   \<and> shuffle_inv (state (addToPlaylist [''X'']
        (store_with [''A'', ''B'', ''C''] 1 False REPEAT_OFF [])))
   \<and> shuffle_inv (state (removeFromPlaylist 0
        (store_with [''A'', ''B'', ''C''] 1 False REPEAT_OFF [])))"
proof -
  have inv: "shuffle_inv (state (store_with [''A'', ''B'', ''C''] 1 False REPEAT_OFF []))"
    by (simp add: shuffle_inv_def)
  show ?thesis
    using shuffle_inv_preserved_amended [OF inv, of 2 "\<lambda>_. 1 / 2" "[''X'']" "[''X'']" 0]
    by simp
qed

section \<open>EventBus: subscribing the same handler twice\<close>

lemma registered_on:
  "registered e (snd (on e h b)) = Set_add h (registered e b)"
  by (simp add: on_def registered_def Let_def split: option.split)

lemma registered_off:
  "registered e (off e h b) = Set_delete h (registered e b)"
  by (simp add: off_def registered_def Set_delete_def split: option.split)

lemma registered_new: "registered e EventBus_new = []"
  by (simp add: registered_def EventBus_new_def)

lemma listenerCount_registered: "listenerCount e b = length (registered e b)"
  by (simp add: listenerCount_def registered_def split: option.split)

lemma emit_registered: "emit e d b = map (\<lambda>callback. (callback, d)) (registered e b)"
  by (simp add: emit_def registered_def split: option.split)

lemma fst_on: "fst (on e h b) = Unsubscribe e h"
  by (simp add: on_def Let_def)

lemma on_twice: "snd (on e h (snd (on e h b))) = snd (on e h b)"
  by (simp add: on_def Let_def Set_add_def split: option.split)

lemma off_twice: "off e h (off e h b) = off e h b"
  by (simp add: off_def Set_delete_def split: option.split)

lemma Set_add_new: "h \<notin> set hs \<Longrightarrow> Set_add h hs = hs @ [h]"
  by (simp add: Set_add_def)

lemma Set_delete_added: "h \<notin> set hs \<Longrightarrow> Set_delete h (hs @ [h]) = hs"
  by (simp add: Set_delete_def)

lemma count_list_absent: "h \<notin> set hs \<Longrightarrow> count_list hs h = 0"
  by (induction hs) auto

text \<open>
  C8, as claimed, fails: the callbacks of an event are a \<open>Set\<close>. After subscribing
  handler 7 twice to event \<open>e\<close> on a new bus, the listener count is 1, not 2, and one
  \<open>emit\<close> calls the handler once.
\<close>

theorem subscribe_twice_counterexample:
  "listenerCount ''e'' (snd (on ''e'' (7::nat) (snd (on ''e'' 7 EventBus_new)))) = 1
   \<and> emit ''e'' True (snd (on ''e'' (7::nat) (snd (on ''e'' 7 EventBus_new)))) = [(7, True)]"
  by (simp add: on_twice listenerCount_registered emit_registered registered_on registered_new
      Set_add_def)

text \<open>
  C8, amended. Subscribing a handler, not yet registered for the event, twice with the
  same arguments creates one registration: the second \<open>on\<close> leaves the bus as the
  first left it, the listener count has grown by 1, and one \<open>emit\<close> calls the handler
  once. Each of the two returned unsubscribe functions removes that one registration
  (the count is back to what it was, \<open>emit\<close> no longer calls the handler), and calling
  the second after the first changes nothing.
\<close>

theorem subscribe_twice_single_registration:
  assumes "h \<notin> set (registered e b)"
  shows "snd (on e h (snd (on e h b))) = snd (on e h b)
       \<and> listenerCount e (snd (on e h (snd (on e h b)))) = listenerCount e b + 1
       \<and> count_list (map fst (emit e d (snd (on e h (snd (on e h b)))))) h = 1
       \<and> listenerCount e
            (call_unsubscribe (fst (on e h b)) (snd (on e h (snd (on e h b)))))
           = listenerCount e b
       \<and> listenerCount e
            (call_unsubscribe (fst (on e h (snd (on e h b)))) (snd (on e h (snd (on e h b)))))
           = listenerCount e b
       \<and> count_list (map fst (emit e d
            (call_unsubscribe (fst (on e h b)) (snd (on e h (snd (on e h b))))))) h = 0
       \<and> call_unsubscribe (fst (on e h (snd (on e h b))))
            (call_unsubscribe (fst (on e h b)) (snd (on e h (snd (on e h b)))))
           = call_unsubscribe (fst (on e h b)) (snd (on e h (snd (on e h b))))"
proof -
  have reg: "registered e (snd (on e h b)) = registered e b @ [h]"
    using assms by (simp add: registered_on Set_add_new)
  have unreg: "registered e (off e h (snd (on e h b))) = registered e b"
    using assms by (simp add: registered_off reg Set_delete_added)
  have calls: "map fst (map (\<lambda>callback. (callback, d)) hs) = hs" for hs :: "'a list"
    by (simp add: comp_def)
  show ?thesis
    using assms
    by (simp add: on_twice fst_on off_twice listenerCount_registered emit_registered
        reg unreg calls count_list_absent)
qed

theorem subscribe_twice_single_registration_witness:
  "listenerCount ''e'' (snd (on ''e'' (7::nat) (snd (on ''e'' 7 EventBus_new)))) = 1
   \<and> count_list (map fst (emit ''e'' True
        (snd (on ''e'' (7::nat) (snd (on ''e'' 7 EventBus_new)))))) 7 = 1
   \<and> listenerCount ''e''
        (call_unsubscribe (fst (on ''e'' (7::nat) EventBus_new))
           (snd (on ''e'' (7::nat) (snd (on ''e'' 7 EventBus_new))))) = 0"
proof -
  have fresh: "(7::nat) \<notin> set (registered ''e'' EventBus_new)"
    by (simp add: registered_new)
  have zero: "listenerCount ''e'' (EventBus_new :: nat event_bus) = 0"
    by (simp add: listenerCount_registered registered_new)
  note t = subscribe_twice_single_registration [OF fresh, of True]
  have a: "listenerCount ''e'' (snd (on ''e'' (7::nat) (snd (on ''e'' 7 EventBus_new)))) = 1"
    using t [THEN conjunct2, THEN conjunct1] zero by simp
  have b: "count_list (map fst (emit ''e'' True
        (snd (on ''e'' (7::nat) (snd (on ''e'' 7 EventBus_new)))))) 7 = 1"
    using t [THEN conjunct2, THEN conjunct2, THEN conjunct1] .
  have c: "listenerCount ''e''
        (call_unsubscribe (fst (on ''e'' (7::nat) EventBus_new))
           (snd (on ''e'' (7::nat) (snd (on ''e'' 7 EventBus_new))))) = 0"
    using t [THEN conjunct2, THEN conjunct2, THEN conjunct2, THEN conjunct1] zero by simp
  from a b c show ?thesis by (intro conjI)
qed

section \<open>Persistence\<close>

lemma storage_keys_distinct:
  "STORAGE_KEY_VOLUME \<noteq> STORAGE_KEY_THEME"
  "STORAGE_KEY_VOLUME \<noteq> STORAGE_KEY_PLAYBACK_SPEED"
  "STORAGE_KEY_THEME \<noteq> STORAGE_KEY_PLAYBACK_SPEED"
  "STORAGE_KEY_THEME \<noteq> STORAGE_KEY_VOLUME"
  "STORAGE_KEY_PLAYBACK_SPEED \<noteq> STORAGE_KEY_VOLUME"
  "STORAGE_KEY_PLAYBACK_SPEED \<noteq> STORAGE_KEY_THEME"
  by (simp_all add: constants_defs)

lemma localStorage_persistState:
  "localStorage (persistState u w) =
     (case u_playbackRate u of Some r \<Rightarrow> storageSet STORAGE_KEY_PLAYBACK_SPEED r | None \<Rightarrow> id)
       ((case u_theme u of Some t \<Rightarrow> storageSet STORAGE_KEY_THEME t | None \<Rightarrow> id)
          ((case u_volume u of Some v \<Rightarrow> storageSet STORAGE_KEY_VOLUME v | None \<Rightarrow> id)
             (localStorage w)))"
  by (simp add: persistState_def Let_def split: option.split)

lemma localStorage_set_state_persist:
  "localStorage (set_state u ev w) = localStorage (persistState u w)"
  by (simp add: set_state_def Let_def localStorage_persistState split: option.split)

lemma localStorage_set_state:
  "localStorage (set_state u ev w) k =
     (if k = STORAGE_KEY_PLAYBACK_SPEED \<and> u_playbackRate u \<noteq> None
      then map_option stringify_item (u_playbackRate u)
      else if k = STORAGE_KEY_THEME \<and> u_theme u \<noteq> None
      then map_option stringify_item (u_theme u)
      else if k = STORAGE_KEY_VOLUME \<and> u_volume u \<noteq> None
      then map_option stringify_item (u_volume u)
      else localStorage w k)"
  unfolding localStorage_set_state_persist localStorage_persistState
  by (cases "u_volume u"; cases "u_theme u"; cases "u_playbackRate u")
     (simp_all add: storageSet_def storage_keys_distinct)

lemma loaded_fields:
  "volume (state (StateManager_new ls)) =
     (if storageGet STORAGE_KEY_VOLUME JNull ls \<noteq> JNull
      then storageGet STORAGE_KEY_VOLUME JNull ls else JNum DEFAULT_VOLUME)"
  "theme (state (StateManager_new ls)) =
     (if truthy (storageGet STORAGE_KEY_THEME JNull ls)
      then storageGet STORAGE_KEY_THEME JNull ls else JStr THEME_DARK)"
  "playbackRate (state (StateManager_new ls)) =
     (if storageGet STORAGE_KEY_PLAYBACK_SPEED JNull ls \<noteq> JNull
      then storageGet STORAGE_KEY_PLAYBACK_SPEED JNull ls else JNum DEFAULT_SPEED)"
  by (simp_all add: StateManager_new_def loadPersistedState_def Let_def initial_state_def)

lemma storageGet_stored:
  "ls k = Some (stringify_item v) \<Longrightarrow> v \<noteq> JUndefined \<Longrightarrow> storageGet k d ls = v"
  by (cases v) (simp_all add: storageGet_def stringify_item_def)

lemma updates_fields [simp]:
  "u_volume (no_updates\<lparr>u_volume := x\<rparr>) = x"
  "u_theme (no_updates\<lparr>u_theme := y\<rparr>) = y"
  "u_playbackRate (no_updates\<lparr>u_playbackRate := z\<rparr>) = z"
  "u_theme (no_updates\<lparr>u_volume := x\<rparr>) = None"
  "u_playbackRate (no_updates\<lparr>u_volume := x\<rparr>) = None"
  "u_playbackRate (no_updates\<lparr>u_theme := y\<rparr>) = None"
  by (simp_all add: no_updates_def)

text \<open>
  C9. For every number \<open>v\<close>, \<open>set({volume: v})\<close> stores \<open>v\<close> under the volume key,
  and a store constructed over the resulting storage has \<open>v\<close> as its volume; the same
  for \<open>playbackRate\<close> under the speed key; the same for \<open>theme\<close> under the theme key,
  for every non-empty string, which both themes of the player (\<open>dark\<close>, \<open>light\<close>) are.
  \<open>set\<close> writes no other key, and writes none of the three keys when the update lacks
  the field.
\<close>

theorem persistence_round_trip:
  fixes w :: "'t store"
  shows "localStorage (set_state (no_updates\<lparr>u_volume := Some (JNum v)\<rparr>) ev w) STORAGE_KEY_VOLUME
           = Some (Json (JNum v))
       \<and> volume (state (StateManager_new
            (localStorage (set_state (no_updates\<lparr>u_volume := Some (JNum v)\<rparr>) ev w))
              :: 't store)) = JNum v
       \<and> localStorage (set_state (no_updates\<lparr>u_playbackRate := Some (JNum r)\<rparr>) ev w)
            STORAGE_KEY_PLAYBACK_SPEED = Some (Json (JNum r))
       \<and> playbackRate (state (StateManager_new
            (localStorage (set_state (no_updates\<lparr>u_playbackRate := Some (JNum r)\<rparr>) ev w))
              :: 't store)) = JNum r
       \<and> localStorage (set_state (no_updates\<lparr>u_theme := Some (JStr t)\<rparr>) ev w) STORAGE_KEY_THEME
           = Some (Json (JStr t))
       \<and> (t \<noteq> [] \<longrightarrow>
            theme (state (StateManager_new
              (localStorage (set_state (no_updates\<lparr>u_theme := Some (JStr t)\<rparr>) ev w))
                :: 't store)) = JStr t)
       \<and> (k \<noteq> STORAGE_KEY_VOLUME \<and> k \<noteq> STORAGE_KEY_THEME \<and> k \<noteq> STORAGE_KEY_PLAYBACK_SPEED
            \<longrightarrow> localStorage (set_state u ev w) k = localStorage w k)
       \<and> (u_volume u = None
            \<longrightarrow> localStorage (set_state u ev w) STORAGE_KEY_VOLUME
                = localStorage w STORAGE_KEY_VOLUME)
       \<and> (u_theme u = None
            \<longrightarrow> localStorage (set_state u ev w) STORAGE_KEY_THEME
                = localStorage w STORAGE_KEY_THEME)
       \<and> (u_playbackRate u = None
            \<longrightarrow> localStorage (set_state u ev w) STORAGE_KEY_PLAYBACK_SPEED
                = localStorage w STORAGE_KEY_PLAYBACK_SPEED)"
proof (intro conjI impI)
  let ?lv = "localStorage (set_state (no_updates\<lparr>u_volume := Some (JNum v)\<rparr>) ev w)"
  let ?lr = "localStorage (set_state (no_updates\<lparr>u_playbackRate := Some (JNum r)\<rparr>) ev w)"
  let ?lt = "localStorage (set_state (no_updates\<lparr>u_theme := Some (JStr t)\<rparr>) ev w)"
  show sv: "?lv STORAGE_KEY_VOLUME = Some (Json (JNum v))"
    by (simp add: localStorage_set_state storage_keys_distinct stringify_item_def)
  show sr: "?lr STORAGE_KEY_PLAYBACK_SPEED = Some (Json (JNum r))"
    by (simp add: localStorage_set_state storage_keys_distinct stringify_item_def)
  show st: "?lt STORAGE_KEY_THEME = Some (Json (JStr t))"
    by (simp add: localStorage_set_state storage_keys_distinct stringify_item_def)
  have "storageGet STORAGE_KEY_VOLUME JNull ?lv = JNum v"
    using sv by (simp add: storageGet_def)
  then show "volume (state (StateManager_new ?lv :: 't store)) = JNum v"
    by (simp add: loaded_fields)
  have "storageGet STORAGE_KEY_PLAYBACK_SPEED JNull ?lr = JNum r"
    using sr by (simp add: storageGet_def)
  then show "playbackRate (state (StateManager_new ?lr :: 't store)) = JNum r"
    by (simp add: loaded_fields)
  have "storageGet STORAGE_KEY_THEME JNull ?lt = JStr t"
    using st by (simp add: storageGet_def)
  then show "theme (state (StateManager_new ?lt :: 't store)) = JStr t" if "t \<noteq> []"
    using that by (simp add: loaded_fields)
next
  assume "k \<noteq> STORAGE_KEY_VOLUME \<and> k \<noteq> STORAGE_KEY_THEME \<and> k \<noteq> STORAGE_KEY_PLAYBACK_SPEED"
  then show "localStorage (set_state u ev w) k = localStorage w k"
    by (simp add: localStorage_set_state)
next
  assume "u_volume u = None"
  then show "localStorage (set_state u ev w) STORAGE_KEY_VOLUME
                = localStorage w STORAGE_KEY_VOLUME"
    by (simp add: localStorage_set_state storage_keys_distinct)
next
  assume "u_theme u = None"
  then show "localStorage (set_state u ev w) STORAGE_KEY_THEME
                = localStorage w STORAGE_KEY_THEME"
    by (simp add: localStorage_set_state storage_keys_distinct)
next
  assume "u_playbackRate u = None"
  then show "localStorage (set_state u ev w) STORAGE_KEY_PLAYBACK_SPEED
                = localStorage w STORAGE_KEY_PLAYBACK_SPEED"
    by (simp add: localStorage_set_state storage_keys_distinct)
qed

theorem persistence_round_trip_witness:
  "volume (state (StateManager_new
     (localStorage (set_state (no_updates\<lparr>u_volume := Some (JNum (42 / 100))\<rparr>) None
        (StateManager_new Map.empty :: string store))) :: string store)) = JNum (42 / 100)
   \<and> theme (state (StateManager_new
     (localStorage (set_state (no_updates\<lparr>u_theme := Some (JStr THEME_LIGHT)\<rparr>) None
        (StateManager_new Map.empty :: string store))) :: string store)) = JStr THEME_LIGHT
   \<and> localStorage (set_state (no_updates\<lparr>u_playlist := Some [''A'']\<rparr>) None
        (StateManager_new Map.empty :: string store)) ''las-player-playlist'' = None
   \<and> localStorage (set_state (no_updates\<lparr>u_playlist := Some [''A'']\<rparr>) None
        (StateManager_new Map.empty :: string store)) STORAGE_KEY_VOLUME = None"
proof -
  note t = persistence_round_trip [where v = "42 / 100" and t = THEME_LIGHT and ev = None
      and w = "StateManager_new Map.empty :: string store"
      and k = "''las-player-playlist''" and u = "no_updates\<lparr>u_playlist := Some [''A'']\<rparr>"]
  have light: "THEME_LIGHT \<noteq> []" by (simp add: THEME_LIGHT_def)
  have key: "''las-player-playlist'' \<noteq> STORAGE_KEY_VOLUME
      \<and> ''las-player-playlist'' \<noteq> STORAGE_KEY_THEME
      \<and> ''las-player-playlist'' \<noteq> STORAGE_KEY_PLAYBACK_SPEED"
    by (simp add: constants_defs)
  have absent: "u_volume (no_updates\<lparr>u_playlist := Some [''A'']\<rparr> :: string updates) = None"
    by (simp add: no_updates_def)
  have empty: "localStorage (StateManager_new Map.empty :: string store) = Map.empty"
    by (simp add: StateManager_new_empty)
  have a: "volume (state (StateManager_new
     (localStorage (set_state (no_updates\<lparr>u_volume := Some (JNum (42 / 100))\<rparr>) None
        (StateManager_new Map.empty :: string store))) :: string store)) = JNum (42 / 100)"
    using t [THEN conjunct2, THEN conjunct1] .
  have b: "theme (state (StateManager_new
     (localStorage (set_state (no_updates\<lparr>u_theme := Some (JStr THEME_LIGHT)\<rparr>) None
        (StateManager_new Map.empty :: string store))) :: string store)) = JStr THEME_LIGHT"
    using t [THEN conjunct2, THEN conjunct2, THEN conjunct2, THEN conjunct2, THEN conjunct2,
        THEN conjunct1, rule_format, OF light] .
  have c: "localStorage (set_state (no_updates\<lparr>u_playlist := Some [''A'']\<rparr>) None
        (StateManager_new Map.empty :: string store)) ''las-player-playlist'' = None"
    using t [THEN conjunct2, THEN conjunct2, THEN conjunct2, THEN conjunct2, THEN conjunct2,
        THEN conjunct2, THEN conjunct1, rule_format, OF key] empty by simp
  have d: "localStorage (set_state (no_updates\<lparr>u_playlist := Some [''A'']\<rparr>) None
        (StateManager_new Map.empty :: string store)) STORAGE_KEY_VOLUME = None"
    using t [THEN conjunct2, THEN conjunct2, THEN conjunct2, THEN conjunct2, THEN conjunct2,
        THEN conjunct2, THEN conjunct2, THEN conjunct1, rule_format, OF absent] empty by simp
  from a b c d show ?thesis by (intro conjI)
qed

text \<open>
  \<open>loadPersistedState\<close> tests the saved theme for truthiness, the saved volume and
  speed against \<open>null\<close>: an empty string stored as theme is not read back.
\<close>

lemma theme_empty_string_not_reloaded:
  "theme (state (StateManager_new
     (localStorage (set_state (no_updates\<lparr>u_theme := Some (JStr [])\<rparr>) None
        (StateManager_new Map.empty :: string store))) :: string store)) = JStr THEME_DARK"
  by (simp add: loaded_fields localStorage_set_state storage_keys_distinct storageGet_def
      stringify_item_def)

end
